theory Spec2Isabelle
  imports Main "HOL-Library.Word" "HOL-Library.Code_Target_Nat"
begin

unbundle bit_operations_syntax

section \<open>Data model of bignum.cc\<close>

text \<open>
  A bignum object is a type tag followed by a byte count and that many magnitude bytes,
  least significant byte first.  The sign and the based variants live in the tag.
  Only the numeric tags of ids.tbl that bignum.cc works with are listed here, in the
  order of the table.
\<close>

type_synonym byte = "8 word"

datatype id =
    ID_hex_integer | ID_dec_integer | ID_oct_integer | ID_bin_integer | ID_based_integer
  | ID_hex_bignum | ID_dec_bignum | ID_oct_bignum | ID_bin_bignum | ID_based_bignum
  | ID_bignum | ID_neg_bignum
  | ID_integer | ID_neg_integer

record bignum =
  btype :: id
  payload :: "byte list"

text \<open>The small integer built by \<open>as_integer\<close>: a tag and a \<open>ularge\<close> (64-bit) magnitude.\<close>

record integer_object =
  itype :: id
  ivalue :: "64 word"

text \<open>
  The errors of errors.tbl that the arithmetic kernels raise.  \<open>scratch_overrun\<close> is not
  one of them: it marks a run in which the code writes past the end of its scratch
  buffer, from where on its behaviour is not defined.
\<close>

datatype error =
  zero_divide_error | number_too_big_error | out_of_memory_error | scratch_overrun

text \<open>
  The runtime and the settings are not among the sources; what the kernels read from them
  is taken as a parameter: \<open>Settings.maxbignum\<close>, \<open>Settings.wordsize\<close>, whether
  \<open>rt.allocate(n)\<close> finds \<open>n\<close> scratchpad bytes, whether \<open>rt.make\<close> finds room for a
  bignum with a payload of \<open>n\<close> bytes, and whether it finds room for a small integer.
\<close>

record runtime =
  maxbignum :: nat
  wordsize_setting :: nat
  allocate_ok :: "nat \<Rightarrow> bool"
  make_ok :: "nat \<Rightarrow> bool"
  make_integer_ok :: bool

definition rt_make :: "runtime \<Rightarrow> id \<Rightarrow> byte list \<Rightarrow> nat \<Rightarrow> error + bignum" where
  "rt_make rt ty buf sz =
     (if make_ok rt sz then Inr \<lparr>btype = ty, payload = take sz buf\<rparr>
      else Inl out_of_memory_error)"

text \<open>The number a little-endian byte string stands for.\<close>

fun bn_val :: "byte list \<Rightarrow> nat" where
  "bn_val [] = 0"
| "bn_val (b # bs) = unat b + 256 * bn_val bs"

text \<open>The signed value of a bignum: only \<open>neg_bignum\<close> is negative.\<close>

definition magnitude :: "bignum \<Rightarrow> nat" where
  "magnitude b = bn_val (payload b)"

definition signed_value :: "bignum \<Rightarrow> int" where
  "signed_value b =
     (if btype b = ID_neg_bignum then - int (magnitude b) else int (magnitude b))"

text \<open>Normalized form: the most significant stored byte is not zero.\<close>

definition normalized :: "byte list \<Rightarrow> bool" where
  "normalized bs = (bs = [] \<or> last bs \<noteq> 0)"

text \<open>
  FLAGS(is\_based, hex\_integer, based\_integer, hex\_bignum, based\_bignum) of ids.tbl.
\<close>

definition is_based :: "id \<Rightarrow> bool" where
  "is_based ty = (ty \<in> {ID_hex_integer, ID_dec_integer, ID_oct_integer, ID_bin_integer,
                        ID_based_integer, ID_hex_bignum, ID_dec_bignum, ID_oct_bignum,
                        ID_bin_bignum, ID_based_bignum})"

text \<open>
  Modelled from the spec: \<open>bignum::wordsize\<close>, \<open>bignum::is_zero\<close> and
  \<open>bignum::product_type\<close> are declared in bignum.h, which is not among the sources.
  The word size applies to based numbers only (0 stands for no limit), a bignum is zero
  when its magnitude is, and a product of signed bignums is negative when exactly one
  factor is; with a based right operand the result has the type of that operand.
\<close>

definition wordsize :: "runtime \<Rightarrow> id \<Rightarrow> nat" where
  "wordsize rt ty = (if is_based ty then wordsize_setting rt else 0)"

definition is_zero :: "bignum \<Rightarrow> bool" where
  "is_zero b = list_all (\<lambda>v. v = 0) (payload b)"

definition product_type :: "id \<Rightarrow> id \<Rightarrow> id" where
  "product_type yt xt =
     (if xt = ID_bignum then (if yt = ID_neg_bignum then ID_neg_bignum else ID_bignum)
      else if xt = ID_neg_bignum then (if yt = ID_neg_bignum then ID_bignum else ID_neg_bignum)
      else xt)"

section \<open>bignum::compare\<close>

text \<open>
  The byte loop of \<open>compare\<close>: from index \<open>n - 1\<close> down to 0, as long as the
  result is still 0.
\<close>

fun compare_bytes :: "byte list \<Rightarrow> byte list \<Rightarrow> nat \<Rightarrow> int \<Rightarrow> int" where
  "compare_bytes x y 0 result = result"
| "compare_bytes x y (Suc i) result =
     (if result = 0 then compare_bytes x y i (int (unat (x ! i)) - int (unat (y ! i)))
      else result)"

definition compare :: "bignum \<Rightarrow> bignum \<Rightarrow> bool \<Rightarrow> int" where
  "compare xg yg mag =
     (let xt = btype xg; yt = btype yg in
      if \<not> mag \<and> xt = ID_neg_bignum \<and> yt \<noteq> ID_neg_bignum then - 1
      else if \<not> mag \<and> yt = ID_neg_bignum \<and> xt \<noteq> ID_neg_bignum then 1
      else
        let x = payload xg; y = payload yg;
            xs = length x; ys = length y;
            result = int xs - int ys;
            result = (if result = 0 then compare_bytes x y xs result else result)
        in if \<not> mag \<and> xt = ID_neg_bignum then - result else result)"

text \<open>
  Two zeros with different signs: both magnitudes are 0 and exactly one of the two is a
  \<open>neg_bignum\<close>.
\<close>

definition zeros_of_different_sign :: "bignum \<Rightarrow> bignum \<Rightarrow> bool" where
  "zeros_of_different_sign x y =
     (magnitude x = 0 \<and> magnitude y = 0 \<and>
      (btype x = ID_neg_bignum) \<noteq> (btype y = ID_neg_bignum))"

section \<open>bignum::as\_integer\<close>

text \<open>\<open>sizeof(ularge)\<close>: \<open>ularge\<close> is the 64-bit unsigned type.\<close>

definition sizeof_ularge :: nat where
  "sizeof_ularge = 8"

definition as_integer :: "runtime \<Rightarrow> bignum \<Rightarrow> integer_object option" where
  "as_integer rt b =
     (let p = payload b; size = length p in
      if size > sizeof_ularge then None
      else
        let v = fold (\<lambda>i v. v OR push_bit (i * 8) (ucast (p ! i))) [0..<size] (0 :: 64 word);
            ty = (if btype b = ID_neg_bignum then ID_neg_integer else ID_integer)
        in if make_integer_ok rt then Some \<lparr>itype = ty, ivalue = v\<rparr> else None)"

section \<open>bignum::multiply\<close>

text \<open>
  \<open>while (sz > 0 && buffer[sz-1] == 0) sz--\<close>, the loop that drops the high zero bytes;
  \<open>quorem\<close> has the same loop on the remainder.
\<close>

fun strip_zeros :: "byte list \<Rightarrow> nat \<Rightarrow> nat" where
  "strip_zeros buffer 0 = 0"
| "strip_zeros buffer (Suc n) = (if buffer ! n = 0 then strip_zeros buffer n else Suc n)"

text \<open>
  The first inner loop adds \<open>y << bit\<close> into the buffer from byte \<open>xi\<close> on, the second one
  propagates the carry that is left.  \<open>c\<close> is a 32-bit unsigned.
\<close>

function mul_add_loop ::
  "byte list \<Rightarrow> nat \<Rightarrow> nat \<Rightarrow> nat \<Rightarrow> byte list \<times> nat \<times> nat \<Rightarrow> byte list \<times> nat \<times> nat" where
  "mul_add_loop y xi bit_i needed (buffer, c, yi) =
     (if yi < length y \<and> xi + yi < needed then
        (let c = (c + (unat (buffer ! (xi + yi)) + unat (y ! yi) * 2 ^ bit_i)) mod 4294967296
         in mul_add_loop y xi bit_i needed (buffer[xi + yi := of_nat c], c div 256, Suc yi))
      else (buffer, c, yi))"
  by pat_completeness auto

termination
  by (relation "measure (\<lambda>(y, xi, bit_i, needed, buffer, c, yi). length y - yi)") auto

function mul_carry_loop ::
  "nat \<Rightarrow> nat \<Rightarrow> byte list \<times> nat \<times> nat \<Rightarrow> byte list \<times> nat \<times> nat" where
  "mul_carry_loop xi needed (buffer, c, yi) =
     (if c \<noteq> 0 \<and> xi + yi < needed then
        (let c = (c + unat (buffer ! (xi + yi))) mod 4294967296
         in mul_carry_loop xi needed (buffer[xi + yi := of_nat c], c div 256, Suc yi))
      else (buffer, c, yi))"
  by pat_completeness auto

termination
  by (relation "measure (\<lambda>(xi, needed, buffer, c, yi). needed - (xi + yi))") auto

declare mul_add_loop.simps [simp del] mul_carry_loop.simps [simp del]

text \<open>
  One round of \<open>for (int bit = 0; xd && bit < 8; bit++)\<close>.  The loop stops when \<open>xd\<close>
  is 0; \<open>xd\<close> then stays 0, so the rounds that are left change nothing.
\<close>

definition mul_bit ::
  "byte list \<Rightarrow> nat \<Rightarrow> nat \<Rightarrow> nat \<Rightarrow> byte list \<times> byte \<Rightarrow> byte list \<times> byte" where
  "mul_bit y xi needed bit_i s =
     (case s of (buffer, xd) \<Rightarrow>
        if xd \<noteq> 0 \<and> xd AND push_bit bit_i 1 \<noteq> 0 then
          (case mul_carry_loop xi needed (mul_add_loop y xi bit_i needed (buffer, 0, 0)) of
             (buffer, c, yi) \<Rightarrow> (buffer, xd AND NOT (push_bit bit_i 1)))
        else (buffer, xd))"

definition mul_byte :: "byte list \<Rightarrow> byte list \<Rightarrow> nat \<Rightarrow> nat \<Rightarrow> byte list \<Rightarrow> byte list" where
  "mul_byte x y needed xi buffer = fst (fold (mul_bit y xi needed) [0..<8] (buffer, x ! xi))"

definition multiply :: "runtime \<Rightarrow> bignum \<Rightarrow> bignum \<Rightarrow> id \<Rightarrow> error + bignum" where
  "multiply rt yg xg ty =
     (let x = payload xg; y = payload yg;
          xs = length x; ys = length y;
          xt = btype xg;
          wbits = wordsize rt xt;
          wbytes = (wbits + 7) div 8;
          needed = xs + ys
      in if needed * 8 > maxbignum rt then Inl number_too_big_error
         else
           let needed = (if wbits \<noteq> 0 \<and> needed > wbytes then wbytes else needed)
           in if \<not> allocate_ok rt needed then Inl out_of_memory_error
              else
                let buffer = fold (mul_byte x y needed) [0..<xs] (replicate needed 0);
                    sz = strip_zeros buffer needed
                in rt_make rt ty buffer sz)"

text \<open>
  The operators work on possibly null pointers (\<open>Safe()\<close>) and return one; a null result
  is \<open>None\<close>.  For \<open>/\<close> and \<open>%\<close> a run of \<open>quorem\<close> that left the scratch buffer has no
  defined result; it is shown as \<open>None\<close> as well, and no statement below relies on it.
\<close>

definition op_mul :: "runtime \<Rightarrow> bignum option \<Rightarrow> bignum option \<Rightarrow> bignum option" where
  "op_mul rt y x =
     (case x of None \<Rightarrow> None
      | Some xb \<Rightarrow>
          (case y of None \<Rightarrow> None
           | Some yb \<Rightarrow>
               (case multiply rt yb xb (product_type (btype yb) (btype xb)) of
                  Inl e \<Rightarrow> None
                | Inr b \<Rightarrow> Some b)))"

section \<open>bignum::quorem\<close>

text \<open>
  \<open>quorem\<close> reads \<open>x[rs]\<close> with \<open>rs\<close> equal to the size of \<open>x\<close> when the shifted remainder
  carries into a new byte.  That byte lies behind the payload of \<open>x\<close>; \<open>past\<close> stands for
  the memory found there.
\<close>

definition x_at :: "byte list \<Rightarrow> (nat \<Rightarrow> byte) \<Rightarrow> nat \<Rightarrow> byte" where
  "x_at x past i = (if i < length x then x ! i else past (i - length x))"

text \<open>
  The scratch buffer has \<open>ys + xs + 1\<close> bytes: \<open>ys\<close> for the quotient, then \<open>xs + 1\<close> for
  the remainder.  \<open>st_overrun\<close> is set when \<open>remainder[rs++] = c\<close> is reached with \<open>rs\<close>
  beyond these \<open>xs + 1\<close> bytes, which writes past the end of the buffer; the model
  goes no further then.
\<close>

record quorem_state =
  st_quotient :: "byte list"
  st_remainder :: "byte list"
  st_rs :: nat
  st_qs :: nat
  st_overrun :: bool

text \<open>Shift the remainder left by one bit; \<open>c\<close> is a 16-bit unsigned, \<open>delta\<close> an int.\<close>

definition shift_step ::
  "byte list \<Rightarrow> (nat \<Rightarrow> byte) \<Rightarrow> nat \<Rightarrow> byte list \<times> nat \<times> int \<Rightarrow> byte list \<times> nat \<times> int" where
  "shift_step x past ri s =
     (case s of (remainder, c, delta) \<Rightarrow>
        let c = (c + unat (remainder ! ri) * 2) mod 65536;
            remainder = remainder[ri := of_nat c];
            d = int (unat (remainder ! ri)) - int (unat (x_at x past ri));
            delta = (if d \<noteq> 0 then d else delta)
        in (remainder, c div 256, delta))"

text \<open>Subtract \<open>x\<close> from the remainder; after each byte \<open>c\<close> is the borrow.\<close>

definition sub_step ::
  "byte list \<Rightarrow> nat \<Rightarrow> byte list \<times> nat \<Rightarrow> byte list \<times> nat" where
  "sub_step x ri s =
     (case s of (remainder, c) \<Rightarrow>
        let c = nat ((int (unat (remainder ! ri))
                      - int (if ri < length x then unat (x ! ri) else 0) - int c) mod 65536);
            remainder = remainder[ri := of_nat c]
        in (remainder, if c > 255 then 1 else 0))"

definition quorem_bit ::
  "byte list \<Rightarrow> (nat \<Rightarrow> byte) \<Rightarrow> byte list \<Rightarrow> nat \<Rightarrow> nat \<Rightarrow> quorem_state \<Rightarrow> quorem_state" where
  "quorem_bit x past y yi bit_i s =
     (if st_overrun s then s
      else
        let xs = length x;
            c = unat (drop_bit bit_i (y ! yi) AND 1);
            (remainder, c, delta) = fold (shift_step x past) [0..<st_rs s] (st_remainder s, c, 0)
        in if c \<noteq> 0 \<and> length remainder \<le> st_rs s then s\<lparr>st_overrun := True\<rparr>
           else
             let (remainder, rs, delta) =
                   (if c \<noteq> 0 then
                      let d = int c - int (unat (x_at x past (st_rs s)));
                          delta = (if d \<noteq> 0 then d else delta)
                      in (remainder[st_rs s := of_nat c], st_rs s + 1, delta)
                    else (remainder, st_rs s, delta));
                 delta = (if rs \<noteq> xs then int rs - int xs else delta)
             in if delta \<ge> 0 then
                  let quotient = (st_quotient s)[yi := st_quotient s ! yi OR push_bit bit_i 1];
                      qs = (if st_qs s < yi + 1 then yi + 1 else st_qs s);
                      (remainder, c) = fold (sub_step x) [0..<rs] (remainder, 0);
                      rs = strip_zeros remainder rs
                  in s\<lparr>st_quotient := quotient, st_remainder := remainder, st_rs := rs,
                       st_qs := qs\<rparr>
                else s\<lparr>st_remainder := remainder, st_rs := rs\<rparr>)"

definition quorem_byte ::
  "byte list \<Rightarrow> (nat \<Rightarrow> byte) \<Rightarrow> byte list \<Rightarrow> nat \<Rightarrow> quorem_state \<Rightarrow> quorem_state" where
  "quorem_byte x past y yi s = fold (quorem_bit x past y yi) (rev [0..<8]) s"

definition quorem_loop :: "byte list \<Rightarrow> (nat \<Rightarrow> byte) \<Rightarrow> byte list \<Rightarrow> quorem_state" where
  "quorem_loop x past y =
     fold (quorem_byte x past y) (rev [0..<length y])
       \<lparr>st_quotient = replicate (length y) 0, st_remainder = replicate (length x + 1) 0,
        st_rs = 0, st_qs = 0, st_overrun = False\<rparr>"

text \<open>
  \<open>want_q\<close> and \<open>want_r\<close> say whether the caller passed a place for the quotient and for
  the remainder.  \<open>Inl e\<close> is the return value false with the error \<open>e\<close> set, and
  \<open>Inl scratch_overrun\<close> a run that left the scratch buffer.
\<close>

definition quorem ::
  "runtime \<Rightarrow> (nat \<Rightarrow> byte) \<Rightarrow> bignum \<Rightarrow> bignum \<Rightarrow> id \<Rightarrow> bool \<Rightarrow> bool
     \<Rightarrow> error + bignum option \<times> bignum option" where
  "quorem rt past yg xg ty want_q want_r =
     (if is_zero xg then Inl zero_divide_error
      else
        let x = payload xg; y = payload yg;
            xs = length x; ys = length y;
            xt = btype xg;
            wbits = wordsize rt xt;
            wbytes = (wbits + 7) div 8;
            needed = ys + xs + 1
        in if \<not> allocate_ok rt needed then Inl out_of_memory_error
           else
             let s = quorem_loop x past y;
                 qsz = (if wbits \<noteq> 0 \<and> st_qs s > wbytes then wbytes else st_qs s);
                 rsz = (if wbits \<noteq> 0 \<and> st_rs s > wbytes then wbytes else st_rs s)
             in if st_overrun s then Inl scratch_overrun
                else
                  case (if want_q then map_sum id Some (rt_make rt ty (st_quotient s) qsz)
                        else Inr None) of
                    Inl e \<Rightarrow> Inl e
                  | Inr q \<Rightarrow>
                      (case (if want_r then map_sum id Some (rt_make rt ty (st_remainder s) rsz)
                             else Inr None) of
                         Inl e \<Rightarrow> Inl e
                       | Inr r \<Rightarrow> Inr (q, r)))"

definition op_div ::
  "runtime \<Rightarrow> (nat \<Rightarrow> byte) \<Rightarrow> bignum option \<Rightarrow> bignum option \<Rightarrow> bignum option" where
  "op_div rt past y x =
     (case x of None \<Rightarrow> None
      | Some xb \<Rightarrow>
          (case y of None \<Rightarrow> None
           | Some yb \<Rightarrow>
               (case quorem rt past yb xb (product_type (btype yb) (btype xb)) True False of
                  Inl e \<Rightarrow> None
                | Inr (q, r) \<Rightarrow> q)))"

definition op_mod ::
  "runtime \<Rightarrow> (nat \<Rightarrow> byte) \<Rightarrow> bignum option \<Rightarrow> bignum option \<Rightarrow> bignum option" where
  "op_mod rt past y x =
     (case x of None \<Rightarrow> None
      | Some xb \<Rightarrow>
          (case y of None \<Rightarrow> None
           | Some yb \<Rightarrow>
               (case quorem rt past yb xb (btype yb) False True of
                  Inl e \<Rightarrow> None
                | Inr (q, r) \<Rightarrow> r)))"



section \<open>bignum::pow\<close>

text \<open>
  One round of \<open>for (uint bit = 0; xv && bit < 8; bit++)\<close>; as in \<open>multiply\<close> the loop
  is over once \<open>xv\<close> is 0.
\<close>

definition pow_bit ::
  "runtime \<Rightarrow> nat \<Rightarrow> nat \<Rightarrow> nat \<Rightarrow> bignum option \<times> bignum option \<times> byte
     \<Rightarrow> bignum option \<times> bignum option \<times> byte" where
  "pow_bit rt xs xi bit_i s =
     (case s of (r, y, xv) \<Rightarrow>
        if xv \<noteq> 0 then
          let r = (if xv AND 1 \<noteq> 0 then op_mul rt r y else r);
              xv = drop_bit 1 xv;
              y = (if xv \<noteq> 0 \<or> xi < xs - 1 then op_mul rt y y else y)
          in (r, y, xv)
        else (r, y, xv))"

definition pow_byte ::
  "runtime \<Rightarrow> byte list \<Rightarrow> nat \<Rightarrow> bignum option \<times> bignum option
     \<Rightarrow> bignum option \<times> bignum option" where
  "pow_byte rt x xi s =
     (case s of (r, y) \<Rightarrow>
        (case fold (pow_bit rt (length x) xi) [0..<8] (r, y, x ! xi) of
           (r, y, xv) \<Rightarrow> (r, y)))"

definition bignum_make_one :: "runtime \<Rightarrow> bignum option" where
  "bignum_make_one rt =
     (case rt_make rt ID_bignum [1] 1 of Inl e \<Rightarrow> None | Inr b \<Rightarrow> Some b)"

definition pow :: "runtime \<Rightarrow> bignum option \<Rightarrow> bignum option \<Rightarrow> bignum option" where
  "pow rt yr xr =
     (case xr of None \<Rightarrow> None
      | Some xb \<Rightarrow>
          (case yr of None \<Rightarrow> None
           | Some yb \<Rightarrow>
               fst (fold (pow_byte rt (payload xb)) [0..<length (payload xb)]
                      (bignum_make_one rt, yr))))"

text \<open>
  A runtime with room for everything, a bignum limit of 1024 bits and a word size of 64,
  used to run the kernels on concrete numbers.
\<close>

definition plain_rt :: runtime where
  "plain_rt = \<lparr>maxbignum = 1024, wordsize_setting = 64, allocate_ok = (\<lambda>n. True),
              make_ok = (\<lambda>n. True), make_integer_ok = True\<rparr>"

definition no_past :: "nat \<Rightarrow> byte" where
  "no_past i = 0"

section \<open>Notions used in the proofs\<close>






section \<open>Byte strings as numbers\<close>

lemma pow_256_eq: "(256::nat) ^ n = 2 ^ (n * 8)"
proof -
  have "(256::nat) ^ n = (2 ^ 8) ^ n" by simp
  also have "\<dots> = 2 ^ (8 * n)" by (rule power_mult [symmetric])
  finally show ?thesis by (simp add: mult.commute)
qed

lemma bn_val_append: "bn_val (a @ b) = bn_val a + 256 ^ length a * bn_val b"
  by (induction a) (simp_all add: algebra_simps)

lemma unat_byte_less: "unat (b :: byte) < 256"
  using unsigned_less [of b] by simp

lemma bn_val_less: "bn_val a < 256 ^ length a"
proof (induction a)
  case Nil
  show ?case by simp
next
  case (Cons b bs)
  have "unat b < 256" by (rule unat_byte_less)
  with Cons show ?case by simp
qed

lemma bn_val_take_Suc:
  "n < length a \<Longrightarrow> bn_val (take (Suc n) a) = bn_val (take n a) + 256 ^ n * unat (a ! n)"
  by (simp add: take_Suc_conv_app_nth bn_val_append)

lemma bn_val_normalized_ge:
  assumes "a \<noteq> []" and "last a \<noteq> 0"
  shows "256 ^ (length a - 1) \<le> bn_val a"
proof -
  have a: "a = butlast a @ [last a]" using assms(1) by simp
  have "0 < unat (last a)" using assms(2) by (simp add: unat_gt_0)
  then have "1 \<le> unat (last a)" by simp
  then have "256 ^ length (butlast a) * 1 \<le> 256 ^ length (butlast a) * unat (last a)"
    by (rule mult_le_mono2)
  also have "\<dots> \<le> bn_val (butlast a @ [last a])"
    by (simp add: bn_val_append)
  finally show ?thesis using a by simp
qed

lemma bn_val_shorter_less:
  assumes "normalized y" and "length x < length y"
  shows "bn_val x < bn_val y"
proof -
  from assms have ne: "y \<noteq> []" and l: "last y \<noteq> 0"
    by (auto simp: normalized_def)
  have "bn_val x < 256 ^ length x" by (rule bn_val_less)
  also have "(256::nat) ^ length x \<le> 256 ^ (length y - 1)"
    using assms(2) by (intro power_increasing) auto
  also have "\<dots> \<le> bn_val y" by (rule bn_val_normalized_ge [OF ne l])
  finally show ?thesis .
qed

section \<open>Comparison\<close>

lemma compare_bytes_nonzero: "r \<noteq> 0 \<Longrightarrow> compare_bytes x y n r = r"
  by (cases n) simp_all

lemma compare_bytes_sign:
  "n \<le> length x \<Longrightarrow> n \<le> length y \<Longrightarrow>
   (compare_bytes x y n 0 < 0 \<longleftrightarrow> bn_val (take n x) < bn_val (take n y)) \<and>
   (compare_bytes x y n 0 = 0 \<longleftrightarrow> bn_val (take n x) = bn_val (take n y)) \<and>
   (0 < compare_bytes x y n 0 \<longleftrightarrow> bn_val (take n y) < bn_val (take n x))"
proof (induction n)
  case 0
  show ?case by simp
next
  case (Suc n)
  define a where "a = unat (x ! n)"
  define b where "b = unat (y ! n)"
  have n: "n < length x" "n < length y" using Suc.prems by auto
  have vx: "bn_val (take (Suc n) x) = bn_val (take n x) + 256 ^ n * a"
    unfolding a_def by (rule bn_val_take_Suc [OF n(1)])
  have vy: "bn_val (take (Suc n) y) = bn_val (take n y) + 256 ^ n * b"
    unfolding b_def by (rule bn_val_take_Suc [OF n(2)])
  have lx: "bn_val (take n x) < 256 ^ n"
    using bn_val_less [of "take n x"] n(1) by simp
  have ly: "bn_val (take n y) < 256 ^ n"
    using bn_val_less [of "take n y"] n(2) by simp
  have step: "compare_bytes x y (Suc n) 0 = compare_bytes x y n (int a - int b)"
    by (simp add: a_def b_def)
  show ?case
  proof (cases "a = b")
    case True
    then have "compare_bytes x y (Suc n) 0 = compare_bytes x y n 0"
      using step by simp
    moreover have "n \<le> length x" "n \<le> length y" using n by auto
    ultimately show ?thesis using Suc.IH vx vy True by simp
  next
    case False
    then have nz: "int a - int b \<noteq> 0" by linarith
    have c: "compare_bytes x y (Suc n) 0 = int a - int b"
      using compare_bytes_nonzero [OF nz] step by simp
    show ?thesis
    proof (cases "a < b")
      case True
      then have "Suc a \<le> b" by simp
      then have "256 ^ n * Suc a \<le> 256 ^ n * b" by (rule mult_le_mono2)
      then have "bn_val (take (Suc n) x) < bn_val (take (Suc n) y)"
        using vx vy lx by simp
      then show ?thesis using c True by simp
    next
      case ge: False
      with False have ba: "b < a" by simp
      then have "Suc b \<le> a" by simp
      then have "256 ^ n * Suc b \<le> 256 ^ n * a" by (rule mult_le_mono2)
      then have "bn_val (take (Suc n) y) < bn_val (take (Suc n) x)"
        using vx vy ly by simp
      then show ?thesis using c ba by simp
    qed
  qed
qed

text \<open>The comparison of the magnitudes, which both branches of \<open>compare\<close> share.\<close>

lemma compare_magnitude:
  assumes "normalized (payload x)" and "normalized (payload y)"
  shows "(compare x y True < 0 \<longleftrightarrow> magnitude x < magnitude y) \<and>
         (compare x y True = 0 \<longleftrightarrow> magnitude x = magnitude y) \<and>
         (0 < compare x y True \<longleftrightarrow> magnitude y < magnitude x)"
proof -
  consider (lt) "length (payload x) < length (payload y)"
    | (gt) "length (payload y) < length (payload x)"
    | (eq) "length (payload x) = length (payload y)"
    by linarith
  then show ?thesis
  proof cases
    case lt
    then have "magnitude x < magnitude y"
      using bn_val_shorter_less [OF assms(2)] by (simp add: magnitude_def)
    moreover have "compare x y True < 0"
      using lt by (simp add: compare_def Let_def)
    ultimately show ?thesis by simp
  next
    case gt
    then have "magnitude y < magnitude x"
      using bn_val_shorter_less [OF assms(1)] by (simp add: magnitude_def)
    moreover have "0 < compare x y True"
      using gt by (simp add: compare_def Let_def)
    ultimately show ?thesis by simp
  next
    case eq
    have "compare x y True = compare_bytes (payload x) (payload y) (length (payload x)) 0"
      using eq by (simp add: compare_def Let_def)
    then show ?thesis
      using compare_bytes_sign [of "length (payload x)" "payload x" "payload y"] eq
      by (simp add: magnitude_def)
  qed
qed

lemma compare_signed_eq:
  "compare x y False =
     (if btype x = ID_neg_bignum \<and> btype y \<noteq> ID_neg_bignum then - 1
      else if btype y = ID_neg_bignum \<and> btype x \<noteq> ID_neg_bignum then 1
      else if btype x = ID_neg_bignum then - compare x y True
      else compare x y True)"
  by (simp add: compare_def Let_def)

text \<open>
  Claim C9, as amended.  For bignums \<open>x\<close> and \<open>y\<close> in normalized form, unless they are two
  zeros of which exactly one is a \<open>neg_bignum\<close>, \<open>compare x y false\<close> is negative, zero or
  positive as the signed value of \<open>x\<close> is below, equal to or above that of \<open>y\<close>.  For all
  normalized \<open>x\<close> and \<open>y\<close>, a \<open>neg_bignum\<close> compares below every bignum that is not one, and
  with \<open>magnitude = true\<close> the result orders the magnitudes.
\<close>

theorem compare_orders:
  assumes "normalized (payload x)" and "normalized (payload y)"
  shows "(\<not> zeros_of_different_sign x y \<longrightarrow>
            (compare x y False < 0 \<longleftrightarrow> signed_value x < signed_value y) \<and>
            (compare x y False = 0 \<longleftrightarrow> signed_value x = signed_value y) \<and>
            (0 < compare x y False \<longleftrightarrow> signed_value y < signed_value x)) \<and>
         (btype x = ID_neg_bignum \<and> btype y \<noteq> ID_neg_bignum \<longrightarrow> compare x y False < 0) \<and>
         (compare x y True < 0 \<longleftrightarrow> magnitude x < magnitude y) \<and>
         (compare x y True = 0 \<longleftrightarrow> magnitude x = magnitude y) \<and>
         (0 < compare x y True \<longleftrightarrow> magnitude y < magnitude x)"
proof -
  note m = compare_magnitude [OF assms]
  have s: "(compare x y False < 0 \<longleftrightarrow> signed_value x < signed_value y) \<and>
         (compare x y False = 0 \<longleftrightarrow> signed_value x = signed_value y) \<and>
         (0 < compare x y False \<longleftrightarrow> signed_value y < signed_value x)"
    if nz: "\<not> zeros_of_different_sign x y"
  proof (cases "btype x = ID_neg_bignum")
    case xn: True
    show ?thesis
    proof (cases "btype y = ID_neg_bignum")
      case True
      with xn m show ?thesis
        by (auto simp add: compare_signed_eq signed_value_def)
    next
      case False
      with xn nz have "0 < magnitude x \<or> 0 < magnitude y"
        by (auto simp: zeros_of_different_sign_def)
      with xn False show ?thesis
        by (auto simp add: compare_signed_eq signed_value_def)
    qed
  next
    case xp: False
    show ?thesis
    proof (cases "btype y = ID_neg_bignum")
      case True
      with xp nz have "0 < magnitude x \<or> 0 < magnitude y"
        by (auto simp: zeros_of_different_sign_def)
      with True xp show ?thesis
        by (auto simp add: compare_signed_eq signed_value_def)
    next
      case False
      with xp m show ?thesis
        by (simp add: compare_signed_eq signed_value_def)
    qed
  qed
  have n: "btype x = ID_neg_bignum \<and> btype y \<noteq> ID_neg_bignum \<longrightarrow> compare x y False < 0"
    by (simp add: compare_signed_eq)
  from s n m show ?thesis by blast
qed

theorem compare_orders_witness:
  "normalized (payload \<lparr>btype = ID_neg_bignum, payload = [3]\<rparr>)
   \<and> normalized (payload \<lparr>btype = ID_bignum, payload = [0, 1]\<rparr>)
   \<and> \<not> zeros_of_different_sign \<lparr>btype = ID_neg_bignum, payload = [3]\<rparr>
          \<lparr>btype = ID_bignum, payload = [0, 1]\<rparr>
   \<and> btype \<lparr>btype = ID_neg_bignum, payload = [3]\<rparr> = ID_neg_bignum
   \<and> btype \<lparr>btype = ID_bignum, payload = [0, 1]\<rparr> \<noteq> ID_neg_bignum
   \<and> compare \<lparr>btype = ID_neg_bignum, payload = [3]\<rparr>
        \<lparr>btype = ID_bignum, payload = [0, 1]\<rparr> False < 0
   \<and> signed_value \<lparr>btype = ID_neg_bignum, payload = [3]\<rparr>
        < signed_value \<lparr>btype = ID_bignum, payload = [0, 1]\<rparr>
   \<and> compare \<lparr>btype = ID_neg_bignum, payload = [3]\<rparr>
        \<lparr>btype = ID_bignum, payload = [0, 1]\<rparr> True < 0
   \<and> magnitude \<lparr>btype = ID_neg_bignum, payload = [3]\<rparr>
        < magnitude \<lparr>btype = ID_bignum, payload = [0, 1]\<rparr>"
proof -
  have h: "normalized (payload \<lparr>btype = ID_neg_bignum, payload = [3]\<rparr>)"
    "normalized (payload \<lparr>btype = ID_bignum, payload = [0, 1]\<rparr>)"
    by (simp_all add: normalized_def)
  have z: "\<not> zeros_of_different_sign \<lparr>btype = ID_neg_bignum, payload = [3]\<rparr>
          \<lparr>btype = ID_bignum, payload = [0, 1]\<rparr>"
    by (simp add: zeros_of_different_sign_def magnitude_def)
  have v: "signed_value \<lparr>btype = ID_neg_bignum, payload = [3]\<rparr>
        < signed_value \<lparr>btype = ID_bignum, payload = [0, 1]\<rparr>"
    "magnitude \<lparr>btype = ID_neg_bignum, payload = [3]\<rparr>
        < magnitude \<lparr>btype = ID_bignum, payload = [0, 1]\<rparr>"
    by (simp_all add: signed_value_def magnitude_def)
  from compare_orders [OF h] v h z show ?thesis by simp
qed

text \<open>
  Claim C9 as stated fails on two zeros with different signs.  The negative zero is in
  normalized form, and \<open>quorem\<close> builds it as the remainder of an exact division of a
  negative numerator; it compares below the zero of type \<open>bignum\<close> although both have the
  value 0.
\<close>

theorem compare_negative_zero:
  "normalized (payload \<lparr>btype = ID_neg_bignum, payload = []\<rparr>)
   \<and> normalized (payload \<lparr>btype = ID_bignum, payload = []\<rparr>)
   \<and> compare \<lparr>btype = ID_neg_bignum, payload = []\<rparr> \<lparr>btype = ID_bignum, payload = []\<rparr> False = - 1
   \<and> signed_value \<lparr>btype = ID_neg_bignum, payload = []\<rparr>
       = signed_value \<lparr>btype = ID_bignum, payload = []\<rparr>"
  by (simp add: normalized_def compare_def signed_value_def magnitude_def)

section \<open>Division by zero\<close>

text \<open>
  Claim C2.  When the divisor \<open>x\<close> is zero, \<open>quorem\<close> raises \<open>zero_divide\<close> and returns
  false, whatever the numerator, the result type and the places asked for; no quotient and
  no remainder is built, and the operators \<open>/\<close> and \<open>%\<close> return null.
\<close>

theorem quorem_zero_divide:
  assumes "is_zero x"
  shows "quorem rt past y x ty want_q want_r = Inl zero_divide_error
         \<and> op_div rt past (Some y) (Some x) = None
         \<and> op_mod rt past (Some y) (Some x) = None"
  using assms by (simp add: quorem_def op_div_def op_mod_def)

theorem quorem_zero_divide_witness:
  "is_zero \<lparr>btype = ID_bignum, payload = []\<rparr>
   \<and> quorem plain_rt no_past \<lparr>btype = ID_neg_bignum, payload = [7]\<rparr>
        \<lparr>btype = ID_bignum, payload = []\<rparr> ID_neg_bignum True True = Inl zero_divide_error
   \<and> op_div plain_rt no_past (Some \<lparr>btype = ID_neg_bignum, payload = [7]\<rparr>)
        (Some \<lparr>btype = ID_bignum, payload = []\<rparr>) = None
   \<and> op_mod plain_rt no_past (Some \<lparr>btype = ID_neg_bignum, payload = [7]\<rparr>)
        (Some \<lparr>btype = ID_bignum, payload = []\<rparr>) = None"
proof -
  have z: "is_zero \<lparr>btype = ID_bignum, payload = []\<rparr>"
    by (simp add: is_zero_def)
  show ?thesis
    using z quorem_zero_divide [OF z, of plain_rt no_past
        "\<lparr>btype = ID_neg_bignum, payload = [7]\<rparr>" ID_neg_bignum True True]
    by simp
qed

section \<open>Power\<close>

text \<open>
  Claim C5.  \<open>pow\<close> is documented to compute \<open>y^abs(x)\<close>.  The bit loop of a byte of the
  exponent stops as soon as the bits left in that byte are zero, so the squarings that
  belong to the high zero bits of a byte that is not the last one are skipped.  With
  the exponent 256 (bytes 0 and 1) the result for the base 2 is 2, not \<open>2^256\<close>, although
  \<open>2^256\<close> takes 264 bits and the limit is 1024.
\<close>

theorem pow_256_is_wrong:
  "pow plain_rt (Some \<lparr>btype = ID_bignum, payload = [2]\<rparr>)
       (Some \<lparr>btype = ID_bignum, payload = [0, 1]\<rparr>)
     = Some \<lparr>btype = ID_bignum, payload = [2]\<rparr>
   \<and> magnitude \<lparr>btype = ID_bignum, payload = [0, 1]\<rparr> = 256
   \<and> magnitude \<lparr>btype = ID_bignum, payload = [2]\<rparr> \<noteq> 2 ^ 256"
proof -
  have "pow plain_rt (Some \<lparr>btype = ID_bignum, payload = [2]\<rparr>)
          (Some \<lparr>btype = ID_bignum, payload = [0, 1]\<rparr>)
        = Some \<lparr>btype = ID_bignum, payload = [2]\<rparr>"
    by code_simp
  then show ?thesis
    by (simp add: magnitude_def)
qed

section \<open>Conversion to a small integer\<close>

lemma nat_or_push_bit_add:
  fixes a b :: nat
  assumes "a < 2 ^ k"
  shows "a OR push_bit k b = a + push_bit k b"
proof -
  have a: "take_bit k a = a" using assms by (simp add: take_bit_nat_eq_self_iff)
  have "a AND push_bit k b = 0"
  proof (rule bit_eqI)
    fix m
    have "bit a m \<longrightarrow> m < k"
      using a by (metis bit_take_bit_iff)
    then show "bit (a AND push_bit k b) m = bit (0::nat) m"
      by (auto simp: bit_simps)
  qed
  then show ?thesis by (simp add: disjunctive_add_eq_or)
qed

lemma unat_push_byte:
  assumes "n < 8"
  shows "unat (push_bit (n * 8) (ucast (b :: byte)) :: 64 word) = 256 ^ n * unat b"
proof -
  have b: "unat b < 2 ^ 8" using unsigned_less [of b] by simp
  have "unat b * 2 ^ (n * 8) < 2 ^ 8 * 2 ^ (n * 8)"
    using b by simp
  also have "\<dots> = (2::nat) ^ (8 + n * 8)" by (simp add: power_add)
  also have "\<dots> \<le> 2 ^ 64" using assms by (intro power_increasing) auto
  finally have lt: "unat b * 2 ^ (n * 8) < 2 ^ 64" .
  have p: "(2::nat) ^ (n * 8) = 256 ^ n"
    by (rule pow_256_eq [symmetric])
  have "unat (ucast b :: 64 word) = unat b"
    using b by (simp add: unsigned_ucast_eq take_bit_nat_eq_self_iff)
  then have "unat (push_bit (n * 8) (ucast b) :: 64 word) = take_bit 64 (push_bit (n * 8) (unat b))"
    by (simp add: unsigned_push_bit_eq)
  also have "\<dots> = unat b * 2 ^ (n * 8)"
    using lt by (simp add: push_bit_eq_mult take_bit_nat_eq_self_iff)
  finally show ?thesis by (simp add: p mult.commute)
qed

lemma as_integer_fold:
  "n \<le> length p \<Longrightarrow> n \<le> 8 \<Longrightarrow>
   unat (fold (\<lambda>i v. v OR push_bit (i * 8) (ucast (p ! i))) [0..<n] (0 :: 64 word))
     = bn_val (take n p)"
proof (induction n)
  case 0
  show ?case by simp
next
  case (Suc n)
  let ?v = "fold (\<lambda>i v. v OR push_bit (i * 8) (ucast (p ! i))) [0..<n] (0 :: 64 word)"
  have v: "unat ?v = bn_val (take n p)" using Suc by simp
  have n: "n < length p" "n < 8" using Suc.prems by auto
  have lt: "unat ?v < 2 ^ (n * 8)"
    using bn_val_less [of "take n p"] n(1) v
    by (simp add: pow_256_eq)
  have w: "unat (push_bit (n * 8) (ucast (p ! n)) :: 64 word) = 256 ^ n * unat (p ! n)"
    by (rule unat_push_byte [OF n(2)])
  have "unat (?v OR push_bit (n * 8) (ucast (p ! n))) = unat ?v OR 256 ^ n * unat (p ! n)"
    by (simp only: unsigned_or_eq w)
  also have "256 ^ n * unat (p ! n) = push_bit (n * 8) (unat (p ! n))"
    by (simp add: push_bit_eq_mult pow_256_eq mult.commute)
  also have "unat ?v OR push_bit (n * 8) (unat (p ! n)) = unat ?v + push_bit (n * 8) (unat (p ! n))"
    by (rule nat_or_push_bit_add [OF lt])
  also have "\<dots> = bn_val (take (Suc n) p)"
    using v n(1)
    by (simp add: bn_val_take_Suc push_bit_eq_mult pow_256_eq mult.commute)
  finally show ?case by simp
qed

lemma as_integer_eq:
  "as_integer rt b =
     (if length (payload b) \<le> sizeof_ularge \<and> make_integer_ok rt
      then Some \<lparr>itype = (if btype b = ID_neg_bignum then ID_neg_integer else ID_integer),
                 ivalue = of_nat (magnitude b)\<rparr>
      else None)"
proof (cases "length (payload b) \<le> sizeof_ularge")
  case True
  then have l: "length (payload b) \<le> 8" by (simp add: sizeof_ularge_def)
  let ?v = "fold (\<lambda>i v. v OR push_bit (i * 8) (ucast (payload b ! i)))
              [0..<length (payload b)] (0 :: 64 word)"
  have u: "unat ?v = magnitude b"
    using as_integer_fold [of "length (payload b)" "payload b"] l
    by (simp add: magnitude_def)
  have "of_nat (unat ?v) = ?v" by simp
  then have "?v = of_nat (magnitude b)"
    by (simp only: u)
  then show ?thesis
    using True by (simp add: as_integer_def Let_def)
next
  case False
  then show ?thesis by (simp add: as_integer_def Let_def)
qed

text \<open>
  Claim C6.  A bignum of at most \<open>sizeof(ularge)\<close> magnitude bytes is turned into a small
  integer with the same value, of type \<open>neg_integer\<close> when the bignum is a \<open>neg_bignum\<close>
  and of type \<open>integer\<close> otherwise; a bignum with more bytes gives null.  The small
  integer is built by the runtime, and the result is null as well when that has no room.
\<close>

theorem as_integer_fits:
  "map_option (\<lambda>i. (itype i, unat (ivalue i))) (as_integer rt b) =
     (if length (payload b) \<le> sizeof_ularge \<and> make_integer_ok rt
      then Some (if btype b = ID_neg_bignum then ID_neg_integer else ID_integer, magnitude b)
      else None)"
proof (cases "length (payload b) \<le> sizeof_ularge")
  case True
  then have "length (payload b) \<le> 8" by (simp add: sizeof_ularge_def)
  then have "(256::nat) ^ length (payload b) \<le> 256 ^ 8" by (intro power_increasing) auto
  then have "magnitude b < 2 ^ 64"
    using bn_val_less [of "payload b"] by (simp add: magnitude_def)
  then have "unat (of_nat (magnitude b) :: 64 word) = magnitude b"
    by (simp add: unat_of_nat)
  then show ?thesis by (simp add: as_integer_eq)
next
  case False
  then show ?thesis by (simp add: as_integer_eq)
qed

section \<open>Long division\<close>


lemma bn_val_update_ge:
  "n \<le> i \<Longrightarrow> bn_val (take n (a[i := v])) = bn_val (take n a)"
  by simp
















































section \<open>Multiplication\<close>



















section \<open>Word size\<close>





end
